theory Spec2Isabelle
  imports Main "HOL-Library.Multiset"
begin

section \<open>Python values and exceptions\<close>

text \<open>
  The dispatcher guards its loop with \<^verbatim>\<open>except Exception\<close>. That clause catches
  instances of \<^verbatim>\<open>Exception\<close> only; \<^verbatim>\<open>KeyboardInterrupt\<close>, \<^verbatim>\<open>SystemExit\<close>,
  \<^verbatim>\<open>GeneratorExit\<close> and \<^verbatim>\<open>asyncio.CancelledError\<close> derive from
  \<^verbatim>\<open>BaseException\<close> directly and pass through it. A raised exception is therefore
  modelled with its place in the class hierarchy, its class name and its text.
\<close>

datatype exc_kind = DerivesException | BaseExceptionOnly

datatype py_exc = PyExc (kind: exc_kind) (class_name: string) (exc_str: string)

definition is_Exception :: "py_exc \<Rightarrow> bool" where
  "is_Exception e = (kind e = DerivesException)"

text \<open>
  \<^verbatim>\<open>d[k]\<close> on a missing key raises \<^verbatim>\<open>KeyError(k)\<close>, an \<^verbatim>\<open>Exception\<close>. Python prints
  such an exception as the key between quotes; the model keeps the key itself as the
  text.
\<close>

definition KeyError :: "string \<Rightarrow> py_exc" where
  "KeyError k = PyExc DerivesException ''KeyError'' k"

section \<open>Flags, events and actions (melobot/base/abc.py)\<close>

text \<open>
  A flag value is any Python object. \<open>PyNone\<close> is \<^verbatim>\<open>None\<close>; \<open>PyObj v\<close> is any other
  object, where \<open>'v\<close> is a type on which Python's \<^verbatim>\<open>==\<close> is equality. The sentinel
  \<^verbatim>\<open>Void\<close> of the typing module stands for the absence of a value; \<^verbatim>\<open>flag_check\<close> uses
  it as the default of its lookup, and it is not taken as a flag value here.
\<close>

datatype 'v py_any = PyNone | PyObj 'v

datatype TryFlagFailed = TryFlagFailed string string

record 'v Flagable =
  flags_store :: "(string \<rightharpoonup> (string \<rightharpoonup> 'v py_any)) option"

definition mark ::
  "('v, 'm) Flagable_scheme \<Rightarrow> string \<Rightarrow> string \<Rightarrow> 'v py_any
     \<Rightarrow> TryFlagFailed option \<times> ('v, 'm) Flagable_scheme" where
  "mark self namespace flag_name val =
     (let store = (case flags_store self of None \<Rightarrow> Map.empty | Some s \<Rightarrow> s);
          store' = (case store namespace of
                      None \<Rightarrow> store(namespace \<mapsto> Map.empty) | Some _ \<Rightarrow> store);
          flags = (case store' namespace of None \<Rightarrow> Map.empty | Some f \<Rightarrow> f)
      in if flags flag_name \<noteq> None
         then (Some (TryFlagFailed namespace flag_name), self\<lparr> flags_store := Some store' \<rparr>)
         else (None,
               self\<lparr> flags_store := Some (store'(namespace \<mapsto> flags(flag_name \<mapsto> val))) \<rparr>))"

text \<open>
  \<^verbatim>\<open>flag_check\<close> returns its boolean and the object, whose store it assigns to
  itself. \<^verbatim>\<open>flag is val if val is None else flag == val\<close>.
\<close>

definition flag_check ::
  "('v, 'm) Flagable_scheme \<Rightarrow> string \<Rightarrow> string \<Rightarrow> 'v py_any
     \<Rightarrow> bool \<times> ('v, 'm) Flagable_scheme" where
  "flag_check self namespace flag_name val =
     (let self' = self\<lparr> flags_store := flags_store self \<rparr>
      in case flags_store self' of
           None \<Rightarrow> (False, self')
         | Some store \<Rightarrow>
             (case store namespace of
                None \<Rightarrow> (False, self')
              | Some flags \<Rightarrow>
                  (case flags flag_name of
                     None \<Rightarrow> (False, self')
                   | Some flag \<Rightarrow>
                       ((if val = PyNone then flag = PyNone else flag = val), self'))))"

record ('v, 'raw) BotEvent = "'v Flagable" +
  type :: string
  raw :: 'raw

datatype 'p ActionArgs = ActionArgs (args_type: string) (args_params: 'p)

record ('v, 'p, 'raw) BotAction = "'v Flagable" +
  resp_id :: "string option"
  type :: string
  params :: 'p
  trigger :: "('v, 'raw) BotEvent option"
  ready :: bool

definition BotAction_init ::
  "'p ActionArgs \<Rightarrow> string option \<Rightarrow> ('v, 'raw) BotEvent option \<Rightarrow> bool
     \<Rightarrow> ('v, 'p, 'raw) BotAction" where
  "BotAction_init action_args rid triggerEvent rdy =
     \<lparr> flags_store = None, resp_id = rid, type = args_type action_args,
       params = args_params action_args, trigger = triggerEvent, ready = rdy \<rparr>"

text \<open>
  \<^verbatim>\<open>extract\<close> builds a dict of two or three keys, kept here in insertion order. The
  values under \<^verbatim>\<open>"action"\<close> and \<^verbatim>\<open>"echo"\<close> are strings, the one under \<^verbatim>\<open>"params"\<close>
  is the parameter payload. \<^verbatim>\<open>if self.resp_id\<close> is a truth test: \<^verbatim>\<open>None\<close> and the
  empty string are false.
\<close>

datatype 'p entry = Str string | Payload 'p

definition "extract" :: "('v, 'p, 'raw) BotAction \<Rightarrow> (string \<times> 'p entry) list" where
  "extract self =
     (let obj = [(''action'', Str (type self)), (''params'', Payload (params self))]
      in case resp_id self of
           None \<Rightarrow> obj
         | Some r \<Rightarrow> if r \<noteq> [] then obj @ [(''echo'', Str r)] else obj)"

section \<open>Checkers and matchers (melobot/base/abc.py)\<close>

datatype LogicMode = AND | OR | NOT | XOR

text \<open>
  A checker is an object with the two callback slots of \<^verbatim>\<open>BotChecker\<close>. It is either a
  \<^verbatim>\<open>WrappedChecker\<close>, with a mode and the children \<^verbatim>\<open>c1\<close> and \<^verbatim>\<open>c2\<close>, or an object of
  another subclass, whose own state is \<open>'a\<close>. Checkers are modelled as trees: two
  children of a composite are two objects.
\<close>

datatype ('cb, 'a) checker =
    BotChecker (ok_cb: "'cb option") (fail_cb: "'cb option") 'a
  | WrappedChecker (ok_cb: "'cb option") (fail_cb: "'cb option") LogicMode
      "('cb, 'a) checker" "('cb, 'a) checker option"

datatype 'b matcher =
    BotMatcher 'b
  | WrappedMatcher LogicMode "'b matcher" "'b matcher option"

text \<open>The right operand of \<^verbatim>\<open>&\<close>, \<^verbatim>\<open>|\<close> and \<^verbatim>\<open>^\<close> is any Python object.\<close>

datatype ('cb, 'a, 'b, 'x) py_object =
    Checker "('cb, 'a) checker"
  | Matcher "'b matcher"
  | Other 'x

text \<open>
  The three messages of \<^verbatim>\<open>BotCheckerError\<close> and the one of \<^verbatim>\<open>BotMatcherError\<close>, each
  with the value that the message prints.
\<close>

datatype ('cb, 'o) BotCheckerError =
    NonCheckerOperand 'o
  | OkCbInitialized 'cb
  | FailCbInitialized 'cb

datatype 'o BotMatcherError = NonMatcherOperand 'o

definition WrappedChecker_init ::
  "LogicMode \<Rightarrow> ('cb, 'a) checker \<Rightarrow> ('cb, 'a) checker option
     \<Rightarrow> ('cb, 'o) BotCheckerError + ('cb, 'a) checker" where
  "WrappedChecker_init mode checker1 checker2 =
     Inr (WrappedChecker None None mode checker1 checker2)"

definition WrappedMatcher_init ::
  "LogicMode \<Rightarrow> 'b matcher \<Rightarrow> 'b matcher option \<Rightarrow> 'o BotMatcherError + 'b matcher" where
  "WrappedMatcher_init mode matcher1 matcher2 = Inr (WrappedMatcher mode matcher1 matcher2)"

definition checker_and ::
  "('cb, 'a) checker \<Rightarrow> ('cb, 'a, 'b, 'x) py_object
     \<Rightarrow> ('cb, ('cb, 'a, 'b, 'x) py_object) BotCheckerError + ('cb, 'a) checker" where
  "checker_and self other =
     (case other of
        Checker c \<Rightarrow> WrappedChecker_init AND self (Some c)
      | _ \<Rightarrow> Inl (NonCheckerOperand other))"

definition checker_or ::
  "('cb, 'a) checker \<Rightarrow> ('cb, 'a, 'b, 'x) py_object
     \<Rightarrow> ('cb, ('cb, 'a, 'b, 'x) py_object) BotCheckerError + ('cb, 'a) checker" where
  "checker_or self other =
     (case other of
        Checker c \<Rightarrow> WrappedChecker_init OR self (Some c)
      | _ \<Rightarrow> Inl (NonCheckerOperand other))"

definition checker_invert ::
  "('cb, 'a) checker \<Rightarrow> ('cb, 'o) BotCheckerError + ('cb, 'a) checker" where
  "checker_invert self = WrappedChecker_init NOT self None"

definition checker_xor ::
  "('cb, 'a) checker \<Rightarrow> ('cb, 'a, 'b, 'x) py_object
     \<Rightarrow> ('cb, ('cb, 'a, 'b, 'x) py_object) BotCheckerError + ('cb, 'a) checker" where
  "checker_xor self other =
     (case other of
        Checker c \<Rightarrow> WrappedChecker_init XOR self (Some c)
      | _ \<Rightarrow> Inl (NonCheckerOperand other))"

definition matcher_and ::
  "'b matcher \<Rightarrow> ('cb, 'a, 'b, 'x) py_object
     \<Rightarrow> ('cb, 'a, 'b, 'x) py_object BotMatcherError + 'b matcher" where
  "matcher_and self other =
     (case other of
        Matcher m \<Rightarrow> WrappedMatcher_init AND self (Some m)
      | _ \<Rightarrow> Inl (NonMatcherOperand other))"

definition matcher_or ::
  "'b matcher \<Rightarrow> ('cb, 'a, 'b, 'x) py_object
     \<Rightarrow> ('cb, 'a, 'b, 'x) py_object BotMatcherError + 'b matcher" where
  "matcher_or self other =
     (case other of
        Matcher m \<Rightarrow> WrappedMatcher_init OR self (Some m)
      | _ \<Rightarrow> Inl (NonMatcherOperand other))"

definition matcher_invert :: "'b matcher \<Rightarrow> 'o BotMatcherError + 'b matcher" where
  "matcher_invert self = WrappedMatcher_init NOT self None"

definition matcher_xor ::
  "'b matcher \<Rightarrow> ('cb, 'a, 'b, 'x) py_object
     \<Rightarrow> ('cb, 'a, 'b, 'x) py_object BotMatcherError + 'b matcher" where
  "matcher_xor self other =
     (case other of
        Matcher m \<Rightarrow> WrappedMatcher_init XOR self (Some m)
      | _ \<Rightarrow> Inl (NonMatcherOperand other))"

text \<open>
  The constructors above describe a composite by its operands. The two fill methods
  mutate checker objects, and a composite holds its operands by reference: in
  \<^verbatim>\<open>a & a\<close> both children are the same object. They are therefore modelled on a
  store of checker objects, in which a \<^verbatim>\<open>WrappedChecker\<close> holds its mode and the
  addresses of \<^verbatim>\<open>c1\<close> and \<^verbatim>\<open>c2\<close>. \<open>truthy\<close> is what \<^verbatim>\<open>bool(obj)\<close> gives: \<^verbatim>\<open>True\<close> unless the object's class
  defines \<^verbatim>\<open>__bool__\<close> or \<^verbatim>\<open>__len__\<close>.
\<close>

type_synonym addr = nat

datatype 'a checker_body =
    Plain 'a
  | Wrapped LogicMode addr "addr option"

record ('cb, 'a) checker_obj =
  ok_cb :: "'cb option"
  fail_cb :: "'cb option"
  truthy :: bool
  body :: "'a checker_body"

type_synonym ('cb, 'a) store = "addr \<Rightarrow> ('cb, 'a) checker_obj"






section \<open>Handlers and the dispatcher (melobot/core/dispatcher.py)\<close>

text \<open>
  The three handler classes that \<^verbatim>\<open>bind\<close> tests with \<^verbatim>\<open>isinstance\<close>; every other
  handler class is \<open>OtherEventHandler\<close>.
\<close>

datatype handler_class =
  MsgEventHandler | ReqEventHandler | NoticeEventHandler | OtherEventHandler

text \<open>
  \<^verbatim>\<open>evoke\<close> is a coroutine of the handler: it may change anything outside the
  dispatcher (sessions, the handler's own state), modelled as a world \<open>'w\<close> that is
  passed through, and it either returns a boolean or raises.
\<close>

record ('v, 'raw, 'w) handler =
  cls :: handler_class
  priority :: int
  set_block :: bool
  evoke :: "('v, 'raw) BotEvent \<Rightarrow> 'w \<Rightarrow> (py_exc + bool) \<times> 'w"

datatype level = ERROR | DEBUG

datatype 'raw log_msg =
    DispatcherRaised string string
  | EventRecord 'raw
  | Traceback py_exc

type_synonym 'raw log = "(level \<times> 'raw log_msg) list"

record ('v, 'raw, 'w) dispatcher =
  handlers :: "string \<rightharpoonup> ('v, 'raw, 'w) handler list"
  ready_signal :: bool

definition BotDispatcher_init :: "('v, 'raw, 'w) dispatcher" where
  "BotDispatcher_init =
     \<lparr> handlers = [''message'' \<mapsto> [], ''request'' \<mapsto> [], ''notice'' \<mapsto> []],
       ready_signal = False \<rparr>"

subsection \<open>bind\<close>

text \<open>\<^verbatim>\<open>self._handlers[k].append(h)\<close>: the lookup raises \<^verbatim>\<open>KeyError\<close> on a missing key.\<close>

definition append_to ::
  "(string \<rightharpoonup> 'a list) \<Rightarrow> string \<Rightarrow> 'a \<Rightarrow> py_exc + (string \<rightharpoonup> 'a list)" where
  "append_to hm k h =
     (case hm k of None \<Rightarrow> Inl (KeyError k) | Some l \<Rightarrow> Inr (hm(k \<mapsto> l @ [h])))"

definition classify ::
  "(string \<rightharpoonup> ('v, 'raw, 'w) handler list) \<Rightarrow> ('v, 'raw, 'w) handler
     \<Rightarrow> py_exc + (string \<rightharpoonup> ('v, 'raw, 'w) handler list)" where
  "classify hm h =
     (if cls h = MsgEventHandler then append_to hm ''message'' h
      else if cls h = ReqEventHandler then append_to hm ''request'' h
      else if cls h = NoticeEventHandler then append_to hm ''notice'' h
      else Inr hm)"

fun classify_all ::
  "(string \<rightharpoonup> ('v, 'raw, 'w) handler list) \<Rightarrow> ('v, 'raw, 'w) handler list
     \<Rightarrow> py_exc + (string \<rightharpoonup> ('v, 'raw, 'w) handler list)" where
  "classify_all hm [] = Inr hm"
| "classify_all hm (h # hs) =
     (case classify hm h of Inl e \<Rightarrow> Inl e | Inr hm' \<Rightarrow> classify_all hm' hs)"

text \<open>
  \<^verbatim>\<open>sorted(l, key=lambda x: x.priority, reverse=True)\<close>: a stable sort, descending
  in the key (with \<^verbatim>\<open>reverse=True\<close> equal keys keep their original order).
\<close>

definition sorted_reverse :: "('v, 'raw, 'w) handler list \<Rightarrow> ('v, 'raw, 'w) handler list" where
  "sorted_reverse l = sort_key (\<lambda>x. - priority x) l"

definition bind ::
  "('v, 'raw, 'w) dispatcher \<Rightarrow> ('v, 'raw, 'w) handler list \<Rightarrow> py_exc + ('v, 'raw, 'w) dispatcher" where
  "bind d all_handlers =
     (case classify_all (handlers d) all_handlers of
        Inl e \<Rightarrow> Inl e
      | Inr hm \<Rightarrow>
          Inr \<lparr> handlers = (\<lambda>k. map_option sorted_reverse (hm k)), ready_signal = True \<rparr>)"

fun bind_all ::
  "('v, 'raw, 'w) dispatcher \<Rightarrow> ('v, 'raw, 'w) handler list list \<Rightarrow> py_exc + ('v, 'raw, 'w) dispatcher" where
  "bind_all d [] = Inr d"
| "bind_all d (hs # hss) =
     (case bind d hs of Inl e \<Rightarrow> Inl e | Inr d' \<Rightarrow> bind_all d' hss)"

text \<open>The list a handler class is filed under, if any.\<close>

definition key_of :: "handler_class \<Rightarrow> string option" where
  "key_of c =
     (case c of MsgEventHandler \<Rightarrow> Some ''message'' | ReqEventHandler \<Rightarrow> Some ''request''
      | NoticeEventHandler \<Rightarrow> Some ''notice'' | OtherEventHandler \<Rightarrow> None)"


subsection \<open>dispatch\<close>

text \<open>
  One iteration of the loop either skips the handler or awaits its \<^verbatim>\<open>evoke\<close>. The
  loop returns, next to the exception that left it (if any), the final value of
  \<^verbatim>\<open>permit_priority\<close> and the world, one record per iteration: the handler, the value
  of \<^verbatim>\<open>permit_priority\<close> when the handler was examined, and what was done.
\<close>

datatype action = Skipped | Evoked "py_exc + bool"

record ('v, 'raw, 'w) visit =
  visited :: "('v, 'raw, 'w) handler"
  floor :: int
  did :: action

record ('v, 'raw, 'w) loop_result =
  raised :: "py_exc option"
  permit_priority :: int
  world :: 'w
  visits :: "('v, 'raw, 'w) visit list"

fun dispatch_loop ::
  "('v, 'raw) BotEvent \<Rightarrow> ('v, 'raw, 'w) handler list \<Rightarrow> int \<Rightarrow> 'w \<Rightarrow> ('v, 'raw, 'w) loop_result" where
  "dispatch_loop ev [] permit w =
     \<lparr> raised = None, permit_priority = permit, world = w, visits = [] \<rparr>"
| "dispatch_loop ev (h # hs) permit w =
     (if priority h < permit then
        (let r = dispatch_loop ev hs permit w
         in r\<lparr> visits := \<lparr> visited = h, floor = permit, did = Skipped \<rparr> # visits r \<rparr>)
      else
        (case evoke h ev w of
           (Inl e, w') \<Rightarrow>
             \<lparr> raised = Some e, permit_priority = permit, world = w',
               visits = [\<lparr> visited = h, floor = permit, did = Evoked (Inl e) \<rparr>] \<rparr>
         | (Inr ok, w') \<Rightarrow>
             (let permit' =
                    (if \<not> ok then permit
                     else if set_block h \<and> priority h > permit then priority h
                     else permit);
                  r = dispatch_loop ev hs permit' w'
              in r\<lparr> visits :=
                      \<lparr> visited = h, floor = permit, did = Evoked (Inr ok) \<rparr> # visits r \<rparr>)))"

text \<open>The three logger calls of the \<^verbatim>\<open>except\<close> block.\<close>

definition log_exception :: "('v, 'raw) BotEvent \<Rightarrow> py_exc \<Rightarrow> 'raw log" where
  "log_exception ev e =
     [(ERROR, DispatcherRaised (class_name e) (exc_str e)),
      (DEBUG, EventRecord (raw ev)),
      (DEBUG, Traceback e)]"

record ('v, 'raw, 'w) dispatch_result =
  propagated :: "py_exc option"
  logged :: "'raw log"
  final_floor :: int
  final_world :: 'w
  trace :: "('v, 'raw, 'w) visit list"

text \<open>The body of \<^verbatim>\<open>try\<close>: the lookup of the event type, then the loop.\<close>

definition try_body ::
  "int \<Rightarrow> ('v, 'raw, 'w) dispatcher \<Rightarrow> ('v, 'raw) BotEvent \<Rightarrow> 'w \<Rightarrow> ('v, 'raw, 'w) loop_result" where
  "try_body PriorityLevel_MIN d ev w =
     (case handlers d (BotEvent.type ev) of
        None \<Rightarrow> \<lparr> raised = Some (KeyError (BotEvent.type ev)), permit_priority = PriorityLevel_MIN,
                  world = w, visits = [] \<rparr>
      | Some hs \<Rightarrow> dispatch_loop ev hs PriorityLevel_MIN w)"

text \<open>
  \<^verbatim>\<open>dispatch\<close> first awaits the ready signal: on a dispatcher that is not ready it
  does not return (\<open>None\<close>). \<^verbatim>\<open>PriorityLevel.MIN.value\<close> comes from the typing
  module of the package and is a parameter.
\<close>

definition dispatch ::
  "int \<Rightarrow> ('v, 'raw, 'w) dispatcher \<Rightarrow> ('v, 'raw) BotEvent \<Rightarrow> 'w \<Rightarrow> ('v, 'raw, 'w) dispatch_result option" where
  "dispatch PriorityLevel_MIN d ev w =
     (if \<not> ready_signal d then None
      else
        (let r = try_body PriorityLevel_MIN d ev w
         in Some
            (case raised r of
               None \<Rightarrow>
                 \<lparr> propagated = None, logged = [], final_floor = permit_priority r,
                   final_world = world r, trace = visits r \<rparr>
             | Some e \<Rightarrow>
                 (if is_Exception e then
                    \<lparr> propagated = None, logged = log_exception ev e,
                      final_floor = permit_priority r, final_world = world r,
                      trace = visits r \<rparr>
                  else
                    \<lparr> propagated = Some e, logged = [], final_floor = permit_priority r,
                      final_world = world r, trace = visits r \<rparr>))))"

section \<open>Vocabulary of the properties\<close>

subsection \<open>Flags\<close>

definition lookup_flag ::
  "('v, 'm) Flagable_scheme \<Rightarrow> string \<Rightarrow> string \<Rightarrow> 'v py_any option" where
  "lookup_flag self namespace flag_name =
     (case flags_store self of
        None \<Rightarrow> None
      | Some store \<Rightarrow> (case store namespace of None \<Rightarrow> None | Some flags \<Rightarrow> flags flag_name))"

definition has_flag :: "('v, 'm) Flagable_scheme \<Rightarrow> string \<Rightarrow> string \<Rightarrow> bool" where
  "has_flag self namespace flag_name = (lookup_flag self namespace flag_name \<noteq> None)"

text \<open>A sequence of \<^verbatim>\<open>mark\<close> calls on one object, whose caller catches what they raise.\<close>

fun mark_all ::
  "('v, 'm) Flagable_scheme \<Rightarrow> (string \<times> string \<times> 'v py_any) list
     \<Rightarrow> ('v, 'm) Flagable_scheme" where
  "mark_all self [] = self"
| "mark_all self ((namespace, flag_name, val) # calls) =
     mark_all (snd (mark self namespace flag_name val)) calls"

definition pairs_of :: "(string \<times> string \<times> 'v py_any) list \<Rightarrow> (string \<times> string) list" where
  "pairs_of calls = map (\<lambda>(namespace, flag_name, val). (namespace, flag_name)) calls"

subsection \<open>Operands\<close>

definition is_Checker :: "('cb, 'a, 'b, 'x) py_object \<Rightarrow> bool" where
  "is_Checker other = (case other of Checker c \<Rightarrow> True | _ \<Rightarrow> False)"

definition is_Matcher :: "('cb, 'a, 'b, 'x) py_object \<Rightarrow> bool" where
  "is_Matcher other = (case other of Matcher m \<Rightarrow> True | _ \<Rightarrow> False)"

subsection \<open>Checker objects\<close>








subsection \<open>Dispatcher\<close>

definition bound_keys :: "string set" where
  "bound_keys = {''message'', ''request'', ''notice''}"

text \<open>The handlers of a list that \<^verbatim>\<open>bind\<close> files under key \<open>k\<close>, in their order.\<close>

definition filed_under ::
  "string \<Rightarrow> ('v, 'raw, 'w) handler list \<Rightarrow> ('v, 'raw, 'w) handler list" where
  "filed_under k hs = filter (\<lambda>h. key_of (cls h) = Some k) hs"







subsection \<open>Concrete inputs\<close>

text \<open>
  Three message handlers: \<open>A\<close> (priority 10, blocking), \<open>B\<close> (priority 5) and \<open>C\<close>
  (priority 10, not blocking). Each \<^verbatim>\<open>evoke\<close> writes the handler's name into the world
  and returns \<^verbatim>\<open>True\<close>.
\<close>

definition scenario_A :: "(unit, string, string list) handler" where
  "scenario_A = \<lparr> cls = MsgEventHandler, priority = 10, set_block = True,
                  evoke = (\<lambda>ev w. (Inr True, w @ [''A''])) \<rparr>"

definition scenario_B :: "(unit, string, string list) handler" where
  "scenario_B = \<lparr> cls = MsgEventHandler, priority = 5, set_block = False,
                  evoke = (\<lambda>ev w. (Inr True, w @ [''B''])) \<rparr>"

definition scenario_C :: "(unit, string, string list) handler" where
  "scenario_C = \<lparr> cls = MsgEventHandler, priority = 10, set_block = False,
                  evoke = (\<lambda>ev w. (Inr True, w @ [''C''])) \<rparr>"

definition scenario_dispatcher :: "(unit, string, string list) dispatcher" where
  "scenario_dispatcher =
     \<lparr> handlers = [''message'' \<mapsto> [scenario_A, scenario_C, scenario_B],
                   ''request'' \<mapsto> [], ''notice'' \<mapsto> []],
       ready_signal = True \<rparr>"

definition message_event :: "(unit, string) BotEvent" where
  "message_event = \<lparr> flags_store = None, BotEvent.type = ''message'', raw = ''hello'' \<rparr>"

definition meta_event :: "(unit, string) BotEvent" where
  "meta_event = \<lparr> flags_store = None, BotEvent.type = ''meta'', raw = ''heartbeat'' \<rparr>"






text \<open>A handler of priority 20 whose \<^verbatim>\<open>evoke\<close> raises, bound in front of the three.\<close>

definition raising_handler :: "py_exc \<Rightarrow> (unit, string, string list) handler" where
  "raising_handler e = \<lparr> cls = MsgEventHandler, priority = 20, set_block = False,
                         evoke = (\<lambda>ev w. (Inl e, w @ [''X''])) \<rparr>"

definition raising_dispatcher :: "py_exc \<Rightarrow> (unit, string, string list) dispatcher" where
  "raising_dispatcher e =
     \<lparr> handlers = [''message'' \<mapsto> [raising_handler e, scenario_A, scenario_C, scenario_B],
                   ''request'' \<mapsto> [], ''notice'' \<mapsto> []],
       ready_signal = True \<rparr>"

definition value_error :: py_exc where
  "value_error = PyExc DerivesException ''ValueError'' ''boom''"

definition system_exit :: py_exc where
  "system_exit = PyExc BaseExceptionOnly ''SystemExit'' ''0''"

definition raising_result :: "(unit, string, string list) dispatch_result" where
  "raising_result =
     \<lparr> propagated = None,
       logged = [(ERROR, DispatcherRaised ''ValueError'' ''boom''),
                 (DEBUG, EventRecord ''hello''),
                 (DEBUG, Traceback value_error)],
       final_floor = 0, final_world = [''X''],
       trace = [\<lparr> visited = raising_handler value_error, floor = 0,
                  did = Evoked (Inl value_error) \<rparr>] \<rparr>"

definition exiting_result :: "(unit, string, string list) dispatch_result" where
  "exiting_result =
     \<lparr> propagated = Some system_exit, logged = [], final_floor = 0, final_world = [''X''],
       trace = [\<lparr> visited = raising_handler system_exit, floor = 0,
                  did = Evoked (Inl system_exit) \<rparr>] \<rparr>"

subsection \<open>Concrete flags, actions and checkers\<close>

datatype json = JInt int | JStr string | JDict "(string \<times> json) list"

definition example_action :: "(unit, json, string) BotAction" where
  "example_action =
     BotAction_init
       (ActionArgs ''send_private_msg'' (JDict [(''user_id'', JInt 123), (''message'', JStr ''hi'')]))
       None None False"

definition marked_event :: "(unit, string) BotEvent" where
  "marked_event = mark_all message_event [(''plugin'', ''seen'', PyNone)]"

definition leaf_a :: "(string, string) checker" where
  "leaf_a = BotChecker None None ''a''"

definition leaf_b :: "(string, string) checker" where
  "leaf_b = BotChecker None None ''b''"

definition some_matcher :: "string matcher" where
  "some_matcher = BotMatcher ''m''"

definition number_42 :: "(string, string, string, int) py_object" where
  "number_42 = Other 42"




section \<open>The dispatch loop\<close>







lemma loop_prefix:
  "map visited (visits (dispatch_loop ev hs p w)) = take (length (visits (dispatch_loop ev hs p w))) hs"
proof (induction hs arbitrary: p w)
  case Nil show ?case by simp
next
  case (Cons h hs)
  show ?case
  proof (cases "priority h < p")
    case True
    then show ?thesis using Cons.IH[of p w] by (simp add: Let_def)
  next
    case False
    obtain res w' where ev: "evoke h ev w = (res, w')" by (cases "evoke h ev w")
    show ?thesis
    proof (cases res)
      case (Inl e)
      then show ?thesis using False ev by simp
    next
      case (Inr ok)
      then show ?thesis using False ev Cons.IH by (cases ok) (simp_all add: Let_def)
    qed
  qed
qed

lemma loop_raise_last:
  "i < length (visits (dispatch_loop ev hs p w)) \<Longrightarrow>
   did (visits (dispatch_loop ev hs p w) ! i) = Evoked (Inl e) \<Longrightarrow>
   Suc i = length (visits (dispatch_loop ev hs p w)) \<and> raised (dispatch_loop ev hs p w) = Some e"
proof (induction hs arbitrary: p w i)
  case Nil then show ?case by simp
next
  case (Cons h hs)
  show ?case
  proof (cases "priority h < p")
    case True
    show ?thesis
    proof (cases i)
      case 0
      then show ?thesis using Cons.prems True by (simp add: Let_def)
    next
      case (Suc j)
      then show ?thesis using Cons.prems True Cons.IH[of j p w] by (simp add: Let_def)
    qed
  next
    case False
    obtain res w' where ev: "evoke h ev w = (res, w')" by (cases "evoke h ev w")
    show ?thesis
    proof (cases res)
      case (Inl e')
      then show ?thesis using False ev Cons.prems by simp
    next
      case (Inr ok)
      show ?thesis
      proof (cases i)
        case 0
        then show ?thesis using Cons.prems False ev Inr by (simp add: Let_def)
      next
        case (Suc j)
        then show ?thesis using Cons.prems False ev Inr Cons.IH[of j _ w'] by (simp add: Let_def)
      qed
    qed
  qed
qed





section \<open>Binding\<close>

lemma classify_eq:
  assumes "bound_keys \<subseteq> dom hm"
  shows "classify hm h = Inr (\<lambda>k. map_option (\<lambda>l. l @ filed_under k [h]) (hm k))"
proof -
  from assms obtain a b c where
    m: "hm ''message'' = Some a" and r: "hm ''request'' = Some b" and n: "hm ''notice'' = Some c"
    by (auto simp: bound_keys_def)
  show ?thesis
  proof (cases "cls h")
    case MsgEventHandler
    have "hm(''message'' \<mapsto> a @ [h]) = (\<lambda>k. map_option (\<lambda>l. l @ filed_under k [h]) (hm k))"
      using m MsgEventHandler by (auto simp: fun_eq_iff filed_under_def key_of_def map_option_case split: option.splits)
    then show ?thesis using MsgEventHandler m by (simp add: classify_def append_to_def)
  next
    case ReqEventHandler
    have "hm(''request'' \<mapsto> b @ [h]) = (\<lambda>k. map_option (\<lambda>l. l @ filed_under k [h]) (hm k))"
      using r ReqEventHandler by (auto simp: fun_eq_iff filed_under_def key_of_def map_option_case split: option.splits)
    then show ?thesis using ReqEventHandler r by (simp add: classify_def append_to_def)
  next
    case NoticeEventHandler
    have "hm(''notice'' \<mapsto> c @ [h]) = (\<lambda>k. map_option (\<lambda>l. l @ filed_under k [h]) (hm k))"
      using n NoticeEventHandler by (auto simp: fun_eq_iff filed_under_def key_of_def map_option_case split: option.splits)
    then show ?thesis using NoticeEventHandler n by (simp add: classify_def append_to_def)
  next
    case OtherEventHandler
    have "hm = (\<lambda>k. map_option (\<lambda>l. l @ filed_under k [h]) (hm k))"
      using OtherEventHandler by (auto simp: fun_eq_iff filed_under_def key_of_def map_option_case split: option.splits)
    then show ?thesis using OtherEventHandler by (simp add: classify_def)
  qed
qed

lemma dom_map_option_fun: "dom (\<lambda>k. map_option (g k) (hm k)) = dom hm"
  by (auto simp: dom_def)

lemma classify_all_eq:
  "bound_keys \<subseteq> dom hm \<Longrightarrow>
   classify_all hm hs = Inr (\<lambda>k. map_option (\<lambda>l. l @ filed_under k hs) (hm k))"
proof (induction hs arbitrary: hm)
  case Nil
  then show ?case by (simp add: filed_under_def option.map_ident)
next
  case (Cons h hs)
  let ?hm' = "\<lambda>k. map_option (\<lambda>l. l @ filed_under k [h]) (hm k)"
  have d: "bound_keys \<subseteq> dom ?hm'" using Cons.prems by (simp add: dom_map_option_fun)
  have "classify_all (hm) (h # hs) = classify_all ?hm' hs"
    using classify_eq[OF Cons.prems, of h] by simp
  also have "\<dots> = Inr (\<lambda>k. map_option (\<lambda>l. l @ filed_under k hs) (?hm' k))"
    using Cons.IH[OF d] .
  also have "(\<lambda>k. map_option (\<lambda>l. l @ filed_under k hs) (?hm' k))
      = (\<lambda>k. map_option (\<lambda>l. l @ filed_under k (h # hs)) (hm k))"
    by (auto simp: fun_eq_iff filed_under_def option.map_comp comp_def split: option.splits)
  finally show ?case .
qed


lemma bind_eq:
  assumes "bound_keys \<subseteq> dom (handlers d)"
  shows "bind d hs = Inr \<lparr> handlers = (\<lambda>k. map_option (\<lambda>l. sorted_reverse (l @ filed_under k hs)) (handlers d k)),
       ready_signal = True \<rparr>"
  using classify_all_eq[OF assms, of hs]
  by (simp add: bind_def option.map_comp comp_def)


lemma init_dom: "dom (handlers BotDispatcher_init) = bound_keys"
  by (auto simp: BotDispatcher_init_def bound_keys_def)

lemma sort_key_append_sorted:
  "sort_key f (sort_key f xs @ ys) = sort_key f (xs @ ys)"
proof (rule properties_for_sort_key)
  show "mset (sort_key f (xs @ ys)) = mset (sort_key f xs @ ys)" by simp
next
  fix k assume "k \<in> set (sort_key f (xs @ ys))"
  have "filter (\<lambda>x. f k = f x) (sort_key f (xs @ ys)) = filter (\<lambda>x. f x = f k) (sort_key f (xs @ ys))"
    by (simp add: eq_commute)
  also have "\<dots> = filter (\<lambda>x. f x = f k) (xs @ ys)" by (rule sort_key_stable)
  also have "\<dots> = filter (\<lambda>x. f x = f k) (sort_key f xs) @ filter (\<lambda>x. f x = f k) ys"
    by (simp add: sort_key_stable)
  also have "\<dots> = filter (\<lambda>x. f k = f x) (sort_key f xs @ ys)" by (simp add: eq_commute)
  finally show "filter (\<lambda>x. f k = f x) (sort_key f (xs @ ys)) = filter (\<lambda>x. f k = f x) (sort_key f xs @ ys)" .
next
  show "sorted (map f (sort_key f (xs @ ys)))" by (rule sorted_sort_key)
qed

lemma sorted_reverse_append: "sorted_reverse (sorted_reverse xs @ ys) = sorted_reverse (xs @ ys)"
  by (simp add: sorted_reverse_def sort_key_append_sorted)

lemma filed_under_append: "filed_under k (xs @ ys) = filed_under k xs @ filed_under k ys"
  by (simp add: filed_under_def)

lemma bind_all_eq:
  "bound_keys \<subseteq> dom (handlers d) \<Longrightarrow> hss \<noteq> [] \<Longrightarrow>
   bind_all d hss = Inr \<lparr> handlers = (\<lambda>k. map_option (\<lambda>l. sorted_reverse (l @ filed_under k (concat hss))) (handlers d k)),
       ready_signal = True \<rparr>"
proof (induction hss arbitrary: d)
  case Nil then show ?case by simp
next
  case (Cons hs hss)
  let ?d1 = "\<lparr> handlers = (\<lambda>k. map_option (\<lambda>l. sorted_reverse (l @ filed_under k hs)) (handlers d k)),
       ready_signal = True \<rparr>"
  have b: "bind d hs = Inr ?d1" using bind_eq[OF Cons.prems(1)] .
  show ?case
  proof (cases "hss = []")
    case True
    then show ?thesis using b by simp
  next
    case False
    have "bound_keys \<subseteq> dom (handlers ?d1)" using Cons.prems(1) by (simp add: dom_map_option_fun)
    from Cons.IH[OF this False]
    have "bind_all ?d1 hss = Inr \<lparr> handlers = (\<lambda>k. map_option (\<lambda>l. sorted_reverse (l @ filed_under k (concat hss))) (handlers ?d1 k)),
       ready_signal = True \<rparr>" .
    moreover have "(\<lambda>k. map_option (\<lambda>l. sorted_reverse (l @ filed_under k (concat hss))) (handlers ?d1 k))
       = (\<lambda>k. map_option (\<lambda>l. sorted_reverse (l @ filed_under k (concat (hs # hss)))) (handlers d k))"
      by (auto simp: fun_eq_iff option.map_comp comp_def sorted_reverse_append filed_under_append split: option.splits)
    ultimately show ?thesis using b by simp
  qed
qed

lemma bind_all_init:
  "bind_all BotDispatcher_init hss =
     Inr \<lparr> handlers = (\<lambda>k. if k \<in> bound_keys then Some (sorted_reverse (filed_under k (concat hss))) else None),
           ready_signal = (hss \<noteq> []) \<rparr>"
proof (cases "hss = []")
  case True
  show ?thesis unfolding True
    by (auto simp: BotDispatcher_init_def bound_keys_def fun_eq_iff sorted_reverse_def filed_under_def)
next
  case False
  have "bound_keys \<subseteq> dom (handlers (BotDispatcher_init :: ('a,'b,'c) dispatcher))" by (simp add: init_dom)
  from bind_all_eq[OF this False]
  have "bind_all (BotDispatcher_init :: ('a,'b,'c) dispatcher) hss = Inr \<lparr> handlers = (\<lambda>k. map_option (\<lambda>l. sorted_reverse (l @ filed_under k (concat hss))) (handlers (BotDispatcher_init :: ('a,'b,'c) dispatcher) k)),
       ready_signal = True \<rparr>" .
  moreover have "(\<lambda>k. map_option (\<lambda>l. sorted_reverse (l @ filed_under k (concat hss))) (handlers (BotDispatcher_init :: ('a,'b,'c) dispatcher) k))
     = (\<lambda>k. if k \<in> bound_keys then Some (sorted_reverse (filed_under k (concat hss))) else None)"
    by (auto simp: BotDispatcher_init_def bound_keys_def fun_eq_iff)
  ultimately show ?thesis using False by simp
qed

section \<open>dispatch\<close>





lemma dispatch_trace:
  assumes "dispatch m d ev w = Some r"
  shows "trace r = visits (try_body m d ev w)"
    and "final_floor r = permit_priority (try_body m d ev w)"
    and "final_world r = world (try_body m d ev w)"
  using assms
  by (auto simp: dispatch_def Let_def split: if_splits option.splits)

lemma dispatch_outcome:
  assumes "dispatch m d ev w = Some r"
  shows "raised (try_body m d ev w) = None \<Longrightarrow> propagated r = None \<and> logged r = []"
    and "raised (try_body m d ev w) = Some e \<Longrightarrow> is_Exception e \<Longrightarrow>
           propagated r = None \<and> logged r = log_exception ev e"
    and "raised (try_body m d ev w) = Some e \<Longrightarrow> \<not> is_Exception e \<Longrightarrow>
           propagated r = Some e \<and> logged r = []"
  using assms
  by (auto simp: dispatch_def Let_def split: if_splits option.splits)





lemma raising_loop:
  "dispatch_loop message_event [raising_handler e, scenario_A, scenario_C, scenario_B] 0 [] =
     \<lparr> raised = Some e, permit_priority = 0, world = [''X''],
       visits = [\<lparr> visited = raising_handler e, floor = 0, did = Evoked (Inl e) \<rparr>] \<rparr>"
  by (simp add: raising_handler_def)

lemma raising_handlers:
  "handlers (raising_dispatcher e) (BotEvent.type message_event) =
     Some [raising_handler e, scenario_A, scenario_C, scenario_B]"
  by (simp add: raising_dispatcher_def message_event_def)

lemma raising_try_body:
  "try_body 0 (raising_dispatcher e) message_event [] =
     \<lparr> raised = Some e, permit_priority = 0, world = [''X''],
       visits = [\<lparr> visited = raising_handler e, floor = 0, did = Evoked (Inl e) \<rparr>] \<rparr>"
  by (simp only: try_body_def raising_handlers option.case raising_loop)





text \<open>
  C2, as the claim states it, fails: an exception that does not derive from
  \<^verbatim>\<open>Exception\<close> (here \<^verbatim>\<open>SystemExit\<close>, raised by \<^verbatim>\<open>sys.exit\<close> in the first handler's
  \<^verbatim>\<open>evoke\<close>) leaves \<^verbatim>\<open>dispatch\<close>.
\<close>

theorem dispatch_swallows_all_counterexample:
  "map_option propagated (dispatch 0 (raising_dispatcher system_exit) message_event [])
     = Some (Some (PyExc BaseExceptionOnly ''SystemExit'' ''0''))"
  unfolding dispatch_def raising_try_body
  by (simp add: raising_dispatcher_def system_exit_def is_Exception_def)

text \<open>
  C2, amended. When a handler's \<^verbatim>\<open>evoke\<close> raises during the loop, that visit is the
  last one: the handlers examined are the bound list up to and including the raising
  handler, and no later handler is invoked. If the exception is an instance of
  \<^verbatim>\<open>Exception\<close> it is logged (an error line with its class and text, then the event's
  raw payload, then the stack trace) and \<^verbatim>\<open>dispatch\<close> returns normally. If it derives
  from \<^verbatim>\<open>BaseException\<close> only, it leaves \<^verbatim>\<open>dispatch\<close> and nothing is logged. No
  instance of \<^verbatim>\<open>Exception\<close> ever leaves \<^verbatim>\<open>dispatch\<close>.
\<close>

theorem dispatch_exception_boundary:
  assumes "dispatch PriorityLevel_MIN d ev w = Some r"
    and "handlers d (BotEvent.type ev) = Some hs"
    and "i < length (trace r)"
    and "did (trace r ! i) = Evoked (Inl e)"
  shows "Suc i = length (trace r) \<and> map visited (trace r) = take (Suc i) hs \<and>
         (is_Exception e \<longrightarrow>
            propagated r = None \<and>
            logged r = [(ERROR, DispatcherRaised (class_name e) (exc_str e)),
                        (DEBUG, EventRecord (raw ev)),
                        (DEBUG, Traceback e)]) \<and>
         (\<not> is_Exception e \<longrightarrow> propagated r = Some e \<and> logged r = []) \<and>
         (\<forall>x. propagated r = Some x \<longrightarrow> \<not> is_Exception x)"
proof -
  let ?tb = "try_body PriorityLevel_MIN d ev w"
  have tb: "?tb = dispatch_loop ev hs PriorityLevel_MIN w"
    using assms(2) by (simp add: try_body_def)
  have tr: "trace r = visits (dispatch_loop ev hs PriorityLevel_MIN w)"
    using dispatch_trace(1)[OF assms(1)] tb by simp
  have last: "Suc i = length (trace r)"
    and rs: "raised ?tb = Some e"
    using loop_raise_last[of i ev hs PriorityLevel_MIN w e] assms(3,4) tr tb by simp_all
  have pre: "map visited (trace r) = take (Suc i) hs"
    using loop_prefix[of ev hs PriorityLevel_MIN w] tr last by simp
  have a: "is_Exception e \<longrightarrow> propagated r = None \<and> logged r = log_exception ev e"
    using dispatch_outcome(2)[OF assms(1) rs] by blast
  have b: "\<not> is_Exception e \<longrightarrow> propagated r = Some e \<and> logged r = []"
    using dispatch_outcome(3)[OF assms(1) rs] by blast
  have c: "\<forall>x. propagated r = Some x \<longrightarrow> \<not> is_Exception x"
    using a b by (cases "is_Exception e") auto
  have a': "is_Exception e \<longrightarrow>
            propagated r = None \<and>
            logged r = [(ERROR, DispatcherRaised (class_name e) (exc_str e)),
                        (DEBUG, EventRecord (raw ev)),
                        (DEBUG, Traceback e)]"
    using a unfolding log_exception_def .
  show ?thesis using last pre a' b c by (intro conjI)
qed

theorem dispatch_exception_boundary_witness:
  "dispatch 0 (raising_dispatcher value_error) message_event [] = Some raising_result \<and>
   handlers (raising_dispatcher value_error) (BotEvent.type message_event)
     = Some [raising_handler value_error, scenario_A, scenario_C, scenario_B] \<and>
   did (trace raising_result ! 0) = Evoked (Inl value_error) \<and>
   is_Exception value_error \<and>
   length (trace raising_result) = 1 \<and>
   map visited (trace raising_result) = [raising_handler value_error] \<and>
   propagated raising_result = None \<and>
   logged raising_result = [(ERROR, DispatcherRaised ''ValueError'' ''boom''),
                            (DEBUG, EventRecord ''hello''),
                            (DEBUG, Traceback value_error)] \<and>
   dispatch 0 (raising_dispatcher system_exit) message_event [] = Some exiting_result \<and>
   did (trace exiting_result ! 0) = Evoked (Inl system_exit) \<and>
   \<not> is_Exception system_exit \<and>
   propagated exiting_result = Some system_exit \<and>
   logged exiting_result = []"
proof -
  have h1: "dispatch 0 (raising_dispatcher value_error) message_event [] = Some raising_result"
    unfolding dispatch_def raising_try_body
    by (simp add: raising_dispatcher_def value_error_def is_Exception_def raising_result_def
        log_exception_def message_event_def)
  have h2: "handlers (raising_dispatcher value_error) (BotEvent.type message_event)
     = Some [raising_handler value_error, scenario_A, scenario_C, scenario_B]"
    by (rule raising_handlers)
  have h3: "0 < length (trace raising_result)" by (simp add: raising_result_def)
  have h4: "did (trace raising_result ! 0) = Evoked (Inl value_error)"
    by (simp add: raising_result_def)
  have ex: "is_Exception value_error" by (simp add: is_Exception_def value_error_def)
  have cn: "class_name value_error = ''ValueError''" "exc_str value_error = ''boom''"
    "raw message_event = ''hello''"
    by (simp_all add: value_error_def message_event_def)
  note t = dispatch_exception_boundary[OF h1 h2 h3 h4]
  have c1: "length (trace raising_result) = 1"
    using t by (elim conjE) (simp only: One_nat_def)
  have c2: "map visited (trace raising_result) = [raising_handler value_error]"
    by (simp add: raising_result_def)
  have "is_Exception value_error \<longrightarrow>
        propagated raising_result = None \<and>
        logged raising_result =
          [(ERROR, DispatcherRaised (class_name value_error) (exc_str value_error)),
           (DEBUG, EventRecord (raw message_event)),
           (DEBUG, Traceback value_error)]"
    using t by (elim conjE)
  then have c3: "propagated raising_result = None \<and>
        logged raising_result = [(ERROR, DispatcherRaised ''ValueError'' ''boom''),
                            (DEBUG, EventRecord ''hello''),
                            (DEBUG, Traceback value_error)]"
    using ex unfolding cn by (rule mp)
  have g1: "dispatch 0 (raising_dispatcher system_exit) message_event [] = Some exiting_result"
    unfolding dispatch_def raising_try_body
    by (simp add: raising_dispatcher_def system_exit_def is_Exception_def exiting_result_def)
  have g2: "handlers (raising_dispatcher system_exit) (BotEvent.type message_event)
     = Some [raising_handler system_exit, scenario_A, scenario_C, scenario_B]"
    by (rule raising_handlers)
  have g3: "0 < length (trace exiting_result)" by (simp add: exiting_result_def)
  have g4: "did (trace exiting_result ! 0) = Evoked (Inl system_exit)"
    by (simp add: exiting_result_def)
  have nex: "\<not> is_Exception system_exit" by (simp add: is_Exception_def system_exit_def)
  note u = dispatch_exception_boundary[OF g1 g2 g3 g4]
  have "\<not> is_Exception system_exit \<longrightarrow>
          propagated exiting_result = Some system_exit \<and> logged exiting_result = []"
    using u by (elim conjE)
  then have c4: "propagated exiting_result = Some system_exit \<and> logged exiting_result = []"
    using nex by (rule mp)
  show ?thesis using h1 h2 h4 ex c1 c2 c3 g1 g4 nex c4 by (intro conjI; (elim conjE)?)
qed

section \<open>bind\<close>

lemma scenario_bind:
  "bind BotDispatcher_init [scenario_A, scenario_B, scenario_C] = Inr scenario_dispatcher"
proof -
  have m: "classify_all (handlers (BotDispatcher_init :: (unit, string, string list) dispatcher))
             [scenario_A, scenario_B, scenario_C]
           = Inr [''message'' \<mapsto> [scenario_A, scenario_B, scenario_C],
                  ''request'' \<mapsto> [], ''notice'' \<mapsto> []]"
    by (simp add: BotDispatcher_init_def classify_def append_to_def
        scenario_A_def scenario_B_def scenario_C_def fun_upd_twist)
  have s: "sorted_reverse [scenario_A, scenario_B, scenario_C]
             = [scenario_A, scenario_C, scenario_B]"
    by (simp add: sorted_reverse_def scenario_A_def scenario_B_def scenario_C_def)
  have e: "sorted_reverse ([] :: (unit, string, string list) handler list) = []"
    by (simp add: sorted_reverse_def)
  have "(\<lambda>k. map_option sorted_reverse
            ([''message'' \<mapsto> [scenario_A, scenario_B, scenario_C],
              ''request'' \<mapsto> [], ''notice'' \<mapsto> []] k))
        = [''message'' \<mapsto> [scenario_A, scenario_C, scenario_B],
           ''request'' \<mapsto> [], ''notice'' \<mapsto> []]"
    by (rule ext) (simp add: s e)
  then show ?thesis
    unfolding bind_def m by (simp add: scenario_dispatcher_def)
qed



text \<open>
  C10. On a dispatcher that has been bound, an event whose type is not
  \<^verbatim>\<open>'message'\<close>, \<^verbatim>\<open>'request'\<close> or \<^verbatim>\<open>'notice'\<close> makes the lookup
  \<^verbatim>\<open>self._handlers[event.type]\<close> raise \<^verbatim>\<open>KeyError\<close> inside the \<^verbatim>\<open>try\<close>: no handler is
  visited, the world is unchanged, the error is logged by the \<^verbatim>\<open>except\<close> block and
  \<^verbatim>\<open>dispatch\<close> returns normally.
\<close>

theorem dispatch_unbound_type_dropped:
  assumes "bind_all BotDispatcher_init hss = Inr d"
    and "ready_signal d"
    and "BotEvent.type ev \<notin> {''message'', ''request'', ''notice''}"
  shows "dispatch PriorityLevel_MIN d ev w =
           Some \<lparr> propagated = None,
                  logged = [(ERROR, DispatcherRaised ''KeyError'' (BotEvent.type ev)),
                            (DEBUG, EventRecord (raw ev)),
                            (DEBUG, Traceback (KeyError (BotEvent.type ev)))],
                  final_floor = PriorityLevel_MIN, final_world = w, trace = [] \<rparr>"
proof -
  have "handlers d (BotEvent.type ev) = None"
    using assms(1,3) bind_all_init[of hss] by (auto simp: bound_keys_def)
  then have tb: "try_body PriorityLevel_MIN d ev w =
      \<lparr> raised = Some (KeyError (BotEvent.type ev)), permit_priority = PriorityLevel_MIN,
        world = w, visits = [] \<rparr>"
    by (simp add: try_body_def)
  show ?thesis
    unfolding dispatch_def tb
    using assms(2) by (simp add: is_Exception_def KeyError_def log_exception_def)
qed

theorem dispatch_unbound_type_dropped_witness:
  "bind_all BotDispatcher_init [[scenario_A, scenario_B, scenario_C]] = Inr scenario_dispatcher \<and>
   ready_signal scenario_dispatcher \<and>
   BotEvent.type meta_event \<notin> {''message'', ''request'', ''notice''} \<and>
   dispatch 0 scenario_dispatcher meta_event [] =
     Some \<lparr> propagated = None,
            logged = [(ERROR, DispatcherRaised ''KeyError'' ''meta''),
                      (DEBUG, EventRecord ''heartbeat''),
                      (DEBUG, Traceback (KeyError ''meta''))],
            final_floor = 0, final_world = [], trace = [] \<rparr>"
proof -
  have h1: "bind_all BotDispatcher_init [[scenario_A, scenario_B, scenario_C]]
              = Inr scenario_dispatcher"
    using scenario_bind by simp
  have h2: "ready_signal scenario_dispatcher" by (simp add: scenario_dispatcher_def)
  have h3: "BotEvent.type meta_event \<notin> {''message'', ''request'', ''notice''}"
    by (simp add: meta_event_def)
  have t: "BotEvent.type meta_event = ''meta''" "raw meta_event = ''heartbeat''"
    by (simp_all add: meta_event_def)
  show ?thesis
    using h1 h2 h3 dispatch_unbound_type_dropped[OF h1 h2 h3, of 0 "[]", unfolded t]
    by (intro conjI)
qed

section \<open>Flags\<close>

lemma mark_present:
  assumes "has_flag self namespace flag_name"
  shows "mark self namespace flag_name val = (Some (TryFlagFailed namespace flag_name), self)"
proof -
  from assms obtain store flags v where
    s: "flags_store self = Some store" and f: "store namespace = Some flags"
    and v: "flags flag_name = Some v"
    by (auto simp: has_flag_def lookup_flag_def split: option.splits)
  have "self\<lparr> flags_store := Some store \<rparr> = self" using s by simp
  then show ?thesis using s f v by (simp add: mark_def)
qed

lemma mark_absent:
  assumes "\<not> has_flag self namespace flag_name"
  shows "fst (mark self namespace flag_name val) = None"
  using assms
  by (auto simp: has_flag_def lookup_flag_def mark_def Let_def split: option.splits)

lemma lookup_mark:
  "lookup_flag (snd (mark self namespace flag_name val)) ns fn =
     (if ns = namespace \<and> fn = flag_name \<and> lookup_flag self namespace flag_name = None
      then Some val else lookup_flag self ns fn)"
  by (auto simp: lookup_flag_def mark_def Let_def split: option.splits)

lemma more_mark:
  "Flagable.more (snd (mark self namespace flag_name val)) = Flagable.more self"
  by (simp add: mark_def Let_def)

lemma has_flag_mark:
  "has_flag (snd (mark self namespace flag_name val)) ns fn \<longleftrightarrow>
     has_flag self ns fn \<or> (ns, fn) = (namespace, flag_name)"
  by (auto simp: has_flag_def lookup_mark)

lemma has_flag_mark_all:
  "has_flag (mark_all self calls) ns fn \<longleftrightarrow>
     has_flag self ns fn \<or> (ns, fn) \<in> set (pairs_of calls)"
proof (induction calls arbitrary: self)
  case Nil
  show ?case by (simp add: pairs_of_def)
next
  case (Cons c calls)
  obtain a b v where c: "c = (a, b, v)" by (cases c)
  show ?case using Cons.IH[of "snd (mark self a b v)"]
    by (auto simp: c has_flag_mark pairs_of_def)
qed

lemma has_flag_new: "flags_store self = None \<Longrightarrow> \<not> has_flag self ns fn"
  by (simp add: has_flag_def lookup_flag_def)

lemma flag_check_eq:
  "flag_check self namespace flag_name val =
     ((case lookup_flag self namespace flag_name of
         None \<Rightarrow> False
       | Some flag \<Rightarrow> if val = PyNone then flag = PyNone else flag = val), self)"
  by (simp add: flag_check_def lookup_flag_def split: option.splits)

lemma marked_event_store:
  "flags_store marked_event = Some [''plugin'' \<mapsto> [''seen'' \<mapsto> PyNone]]"
  by (simp add: marked_event_def message_event_def mark_def)

lemma message_event_store: "flags_store message_event = None"
  by (simp add: message_event_def)

lemma marked_event_has: "has_flag marked_event ''plugin'' ''seen''"
  by (simp add: has_flag_def lookup_flag_def marked_event_store)

text \<open>
  C6. \<^verbatim>\<open>mark\<close> on an object that already carries the pair (namespace, flag name)
  raises \<^verbatim>\<open>TryFlagFailed\<close> and leaves the object as it was. On an object that does
  not carry the pair it returns normally, the pair then holds the given value, every
  other pair and every other field of the object is unchanged. On an object created
  with an empty store, the pairs carried are exactly the pairs of the \<^verbatim>\<open>mark\<close> calls
  made so far, so a pair that differs from all of them in namespace or in name can
  always be set.
\<close>

theorem mark_once_only:
  "(has_flag self namespace flag_name \<longrightarrow>
      mark self namespace flag_name val = (Some (TryFlagFailed namespace flag_name), self)) \<and>
   (\<not> has_flag self namespace flag_name \<longrightarrow>
      fst (mark self namespace flag_name val) = None \<and>
      lookup_flag (snd (mark self namespace flag_name val)) namespace flag_name = Some val \<and>
      Flagable.more (snd (mark self namespace flag_name val)) = Flagable.more self \<and>
      (\<forall>ns fn. (ns, fn) \<noteq> (namespace, flag_name) \<longrightarrow>
         lookup_flag (snd (mark self namespace flag_name val)) ns fn = lookup_flag self ns fn)) \<and>
   (flags_store self = None \<longrightarrow>
      (has_flag (mark_all self calls) namespace flag_name \<longleftrightarrow>
         (namespace, flag_name) \<in> set (pairs_of calls)))"
proof -
  have 1: "has_flag self namespace flag_name \<longrightarrow>
      mark self namespace flag_name val = (Some (TryFlagFailed namespace flag_name), self)"
    by (simp add: mark_present)
  have 2: "\<not> has_flag self namespace flag_name \<longrightarrow>
      fst (mark self namespace flag_name val) = None \<and>
      lookup_flag (snd (mark self namespace flag_name val)) namespace flag_name = Some val \<and>
      Flagable.more (snd (mark self namespace flag_name val)) = Flagable.more self \<and>
      (\<forall>ns fn. (ns, fn) \<noteq> (namespace, flag_name) \<longrightarrow>
         lookup_flag (snd (mark self namespace flag_name val)) ns fn = lookup_flag self ns fn)"
    by (auto simp: mark_absent lookup_mark more_mark has_flag_def)
  have 3: "flags_store self = None \<longrightarrow>
      (has_flag (mark_all self calls) namespace flag_name \<longleftrightarrow>
         (namespace, flag_name) \<in> set (pairs_of calls))"
    by (simp add: has_flag_mark_all has_flag_new)
  from 1 2 3 show ?thesis by (intro conjI)
qed

theorem mark_once_only_witness:
  "has_flag marked_event ''plugin'' ''seen'' \<and>
   mark marked_event ''plugin'' ''seen'' (PyObj ())
     = (Some (TryFlagFailed ''plugin'' ''seen''), marked_event) \<and>
   \<not> has_flag marked_event ''plugin'' ''sent'' \<and>
   fst (mark marked_event ''plugin'' ''sent'' (PyObj ())) = None \<and>
   lookup_flag (snd (mark marked_event ''plugin'' ''sent'' (PyObj ()))) ''plugin'' ''sent''
     = Some (PyObj ()) \<and>
   lookup_flag (snd (mark marked_event ''plugin'' ''sent'' (PyObj ()))) ''plugin'' ''seen''
     = Some PyNone \<and>
   flags_store message_event = None \<and>
   (''plugin'', ''seen'') \<in> set (pairs_of [(''plugin'', ''seen'', PyNone :: unit py_any)])"
proof -
  have h1: "has_flag marked_event ''plugin'' ''seen''" by (rule marked_event_has)
  have h2: "\<not> has_flag marked_event ''plugin'' ''sent''"
    by (simp add: has_flag_def lookup_flag_def marked_event_store)
  have h3: "flags_store message_event = None" by (rule message_event_store)
  have h4: "(''plugin'', ''seen'') \<in> set (pairs_of [(''plugin'', ''seen'', PyNone :: unit py_any)])"
    by (simp add: pairs_of_def)
  have l: "lookup_flag marked_event ''plugin'' ''seen'' = Some PyNone"
    by (simp add: lookup_flag_def marked_event_store)
  note t1 = mark_once_only[of marked_event "''plugin''" "''seen''" "PyObj ()" "[]"]
  note t2 = mark_once_only[of marked_event "''plugin''" "''sent''" "PyObj ()" "[]"]
  have a: "mark marked_event ''plugin'' ''seen'' (PyObj ())
     = (Some (TryFlagFailed ''plugin'' ''seen''), marked_event)"
    using t1 h1 by (elim conjE) (rule mp)
  have b: "fst (mark marked_event ''plugin'' ''sent'' (PyObj ())) = None \<and>
      lookup_flag (snd (mark marked_event ''plugin'' ''sent'' (PyObj ()))) ''plugin'' ''sent''
        = Some (PyObj ()) \<and>
      Flagable.more (snd (mark marked_event ''plugin'' ''sent'' (PyObj ())))
        = Flagable.more marked_event \<and>
      (\<forall>ns fn. (ns, fn) \<noteq> (''plugin'', ''sent'') \<longrightarrow>
         lookup_flag (snd (mark marked_event ''plugin'' ''sent'' (PyObj ()))) ns fn
           = lookup_flag marked_event ns fn)"
    using t2 h2 by (elim conjE) (rule mp)
  have b1: "fst (mark marked_event ''plugin'' ''sent'' (PyObj ())) = None"
    using b by (rule conjunct1)
  have b2: "lookup_flag (snd (mark marked_event ''plugin'' ''sent'' (PyObj ()))) ''plugin'' ''sent''
        = Some (PyObj ())"
    using b by (elim conjE)
  have b3: "lookup_flag (snd (mark marked_event ''plugin'' ''sent'' (PyObj ()))) ''plugin'' ''seen''
     = Some PyNone"
    using b l by simp
  show ?thesis using h1 a h2 b1 b2 b3 h3 h4 by (intro conjI)
qed

text \<open>
  C7. \<^verbatim>\<open>flag_check\<close> returns \<^verbatim>\<open>False\<close> when the pair is not in the store, in
  particular when it was never set. With a queried value other than \<^verbatim>\<open>None\<close> it
  returns whether the stored value equals the queried one. With the queried value
  \<^verbatim>\<open>None\<close> it returns whether the stored value is \<^verbatim>\<open>None\<close>, that is, whether the
  flag was set without a value. It leaves the object as it was, and it has no
  raising branch. After a successful \<^verbatim>\<open>mark\<close> with value \<open>v\<close>, a check of the same
  pair for \<^verbatim>\<open>None\<close> is true exactly if \<open>v\<close> is \<^verbatim>\<open>None\<close>, and a check for another
  value is true exactly if it equals \<open>v\<close>.
\<close>

theorem flag_check_semantics:
  "(lookup_flag self namespace flag_name = None \<longrightarrow>
      fst (flag_check self namespace flag_name val) = False) \<and>
   (flags_store self = None \<and> (namespace, flag_name) \<notin> set (pairs_of calls) \<longrightarrow>
      fst (flag_check (mark_all self calls) namespace flag_name val) = False) \<and>
   (val \<noteq> PyNone \<longrightarrow>
      fst (flag_check self namespace flag_name val)
        = (lookup_flag self namespace flag_name = Some val)) \<and>
   fst (flag_check self namespace flag_name PyNone)
     = (lookup_flag self namespace flag_name = Some PyNone) \<and>
   snd (flag_check self namespace flag_name val) = self \<and>
   (\<not> has_flag self namespace flag_name \<longrightarrow>
      fst (flag_check (snd (mark self namespace flag_name v)) namespace flag_name val)
        = (if val = PyNone then v = PyNone else v = val))"
proof -
  have 1: "lookup_flag self namespace flag_name = None \<longrightarrow>
      fst (flag_check self namespace flag_name val) = False"
    by (simp add: flag_check_eq)
  have 2: "flags_store self = None \<and> (namespace, flag_name) \<notin> set (pairs_of calls) \<longrightarrow>
      fst (flag_check (mark_all self calls) namespace flag_name val) = False"
  proof
    assume a: "flags_store self = None \<and> (namespace, flag_name) \<notin> set (pairs_of calls)"
    then have "\<not> has_flag (mark_all self calls) namespace flag_name"
      by (simp add: has_flag_mark_all has_flag_new)
    then show "fst (flag_check (mark_all self calls) namespace flag_name val) = False"
      by (simp add: flag_check_eq has_flag_def)
  qed
  have 3: "val \<noteq> PyNone \<longrightarrow>
      fst (flag_check self namespace flag_name val)
        = (lookup_flag self namespace flag_name = Some val)"
    by (auto simp: flag_check_eq split: option.splits)
  have 4: "fst (flag_check self namespace flag_name PyNone)
     = (lookup_flag self namespace flag_name = Some PyNone)"
    by (auto simp: flag_check_eq split: option.splits)
  have 5: "snd (flag_check self namespace flag_name val) = self"
    by (simp add: flag_check_eq)
  have 6: "\<not> has_flag self namespace flag_name \<longrightarrow>
      fst (flag_check (snd (mark self namespace flag_name v)) namespace flag_name val)
        = (if val = PyNone then v = PyNone else v = val)"
    by (simp add: flag_check_eq lookup_mark has_flag_def)
  from 1 2 3 4 5 6 show ?thesis by (intro conjI)
qed

theorem flag_check_semantics_witness:
  "lookup_flag marked_event ''plugin'' ''sent'' = None \<and>
   fst (flag_check marked_event ''plugin'' ''sent'' (PyObj ())) = False \<and>
   flags_store message_event = None \<and>
   (''plugin'', ''sent'') \<notin> set (pairs_of [(''plugin'', ''seen'', PyNone :: unit py_any)]) \<and>
   fst (flag_check (mark_all message_event [(''plugin'', ''seen'', PyNone)])
          ''plugin'' ''sent'' (PyObj ())) = False \<and>
   PyObj () \<noteq> (PyNone :: unit py_any) \<and>
   fst (flag_check marked_event ''plugin'' ''seen'' (PyObj ())) = False \<and>
   fst (flag_check marked_event ''plugin'' ''seen'' PyNone) = True \<and>
   snd (flag_check marked_event ''plugin'' ''seen'' (PyObj ())) = marked_event \<and>
   \<not> has_flag marked_event ''plugin'' ''sent'' \<and>
   fst (flag_check (snd (mark marked_event ''plugin'' ''sent'' (PyObj ())))
          ''plugin'' ''sent'' (PyObj ())) = True"
proof -
  have h1: "lookup_flag marked_event ''plugin'' ''sent'' = None"
    by (simp add: lookup_flag_def marked_event_store)
  have h2: "flags_store message_event = None" by (rule message_event_store)
  have h3: "(''plugin'', ''sent'') \<notin> set (pairs_of [(''plugin'', ''seen'', PyNone :: unit py_any)])"
    by (simp add: pairs_of_def)
  have h4: "PyObj () \<noteq> (PyNone :: unit py_any)" by simp
  have h5: "\<not> has_flag marked_event ''plugin'' ''sent''"
    using h1 by (simp add: has_flag_def)
  have l: "lookup_flag marked_event ''plugin'' ''seen'' = Some PyNone"
    by (simp add: lookup_flag_def marked_event_store)
  note t1 = flag_check_semantics[of marked_event "''plugin''" "''sent''" "PyObj ()"
      "[]" "PyObj ()"]
  note t2 = flag_check_semantics[of marked_event "''plugin''" "''seen''" "PyObj ()"
      "[]" "PyObj ()"]
  note t3 = flag_check_semantics[of message_event "''plugin''" "''sent''" "PyObj ()"
      "[(''plugin'', ''seen'', PyNone)]" "PyObj ()"]
  have a1: "fst (flag_check marked_event ''plugin'' ''sent'' (PyObj ())) = False"
    using t1 h1 by (elim conjE) (rule mp)
  have a2: "fst (flag_check (mark_all message_event [(''plugin'', ''seen'', PyNone)])
          ''plugin'' ''sent'' (PyObj ())) = False"
    using t3 h2 h3 by (elim conjE) simp
  have a3: "fst (flag_check marked_event ''plugin'' ''seen'' (PyObj ())) = False"
    using t2 h4 l by (elim conjE) simp
  have a4: "fst (flag_check marked_event ''plugin'' ''seen'' PyNone) = True"
    using t2 l by (elim conjE) simp
  have a5: "snd (flag_check marked_event ''plugin'' ''seen'' (PyObj ())) = marked_event"
    using t2 by (elim conjE)
  have a6: "fst (flag_check (snd (mark marked_event ''plugin'' ''sent'' (PyObj ())))
          ''plugin'' ''sent'' (PyObj ())) = True"
    using t1 h5 by (elim conjE) simp
  show ?thesis using h1 a1 h2 h3 a2 h4 a3 a4 a5 h5 a6 by (intro conjI)
qed

section \<open>Actions\<close>

text \<open>
  C8. \<^verbatim>\<open>extract\<close> has no raising branch. Its dict holds \<^verbatim>\<open>"action"\<close>, the operation
  type, and \<^verbatim>\<open>"params"\<close>, the parameter payload; it holds \<^verbatim>\<open>"echo"\<close>, the response
  identifier, exactly when the action has one (an identifier is a non-empty string:
  the code tests \<^verbatim>\<open>if self.resp_id\<close>), and no other key. The action built with
  operation \<^verbatim>\<open>"send_private_msg"\<close>, parameters \<^verbatim>\<open>{user_id: 123, message: "hi"}\<close> and no
  response identifier yields the two entries and no \<^verbatim>\<open>"echo"\<close>.
\<close>

theorem extract_structure:
  "map_of (extract self) ''action'' = Some (Str (type self)) \<and>
   map_of (extract self) ''params'' = Some (Payload (params self)) \<and>
   map_of (extract self) ''echo'' =
     (case resp_id self of None \<Rightarrow> None | Some r \<Rightarrow> if r = [] then None else Some (Str r)) \<and>
   map fst (extract self) =
     (if resp_id self = None \<or> resp_id self = Some [] then [''action'', ''params'']
      else [''action'', ''params'', ''echo'']) \<and>
   extract example_action =
     [(''action'', Str ''send_private_msg''),
      (''params'', Payload (JDict [(''user_id'', JInt 123), (''message'', JStr ''hi'')]))] \<and>
   map_of (extract example_action) ''echo'' = None"
proof -
  have 1: "map_of (extract self) ''action'' = Some (Str (type self))"
    by (simp add: extract_def Let_def split: option.splits)
  have 2: "map_of (extract self) ''params'' = Some (Payload (params self))"
    by (simp add: extract_def Let_def split: option.splits)
  have 3: "map_of (extract self) ''echo'' =
     (case resp_id self of None \<Rightarrow> None | Some r \<Rightarrow> if r = [] then None else Some (Str r))"
    by (simp add: extract_def Let_def split: option.splits)
  have 4: "map fst (extract self) =
     (if resp_id self = None \<or> resp_id self = Some [] then [''action'', ''params'']
      else [''action'', ''params'', ''echo''])"
    by (auto simp: extract_def Let_def split: option.splits)
  have 5: "extract example_action =
     [(''action'', Str ''send_private_msg''),
      (''params'', Payload (JDict [(''user_id'', JInt 123), (''message'', JStr ''hi'')]))]"
    by (simp add: extract_def Let_def example_action_def BotAction_init_def)
  have 6: "map_of (extract example_action) ''echo'' = None"
    unfolding 5 by simp
  from 1 2 3 4 5 6 show ?thesis by (intro conjI)
qed

section \<open>Checkers and matchers\<close>

text \<open>
  C9. \<^verbatim>\<open>&\<close>, \<^verbatim>\<open>|\<close> and \<^verbatim>\<open>^\<close> on a checker whose right operand is not a checker raise
  \<^verbatim>\<open>BotCheckerError\<close> with a message that prints the operand, and build no composite;
  the same operators on a matcher whose right operand is not a matcher raise
  \<^verbatim>\<open>BotMatcherError\<close> in the same way. With an operand of the same family they
  return the composite of the two.
\<close>

theorem combinators_reject_other_operands:
  "(\<not> is_Checker other \<longrightarrow>
      checker_and c other = Inl (NonCheckerOperand other) \<and>
      checker_or c other = Inl (NonCheckerOperand other) \<and>
      checker_xor c other = Inl (NonCheckerOperand other)) \<and>
   (\<not> is_Matcher other \<longrightarrow>
      matcher_and m other = Inl (NonMatcherOperand other) \<and>
      matcher_or m other = Inl (NonMatcherOperand other) \<and>
      matcher_xor m other = Inl (NonMatcherOperand other)) \<and>
   checker_and c (Checker c') = Inr (WrappedChecker None None AND c (Some c')) \<and>
   checker_or c (Checker c') = Inr (WrappedChecker None None OR c (Some c')) \<and>
   checker_xor c (Checker c') = Inr (WrappedChecker None None XOR c (Some c')) \<and>
   matcher_and m (Matcher m') = Inr (WrappedMatcher AND m (Some m')) \<and>
   matcher_or m (Matcher m') = Inr (WrappedMatcher OR m (Some m')) \<and>
   matcher_xor m (Matcher m') = Inr (WrappedMatcher XOR m (Some m'))"
  by (cases other)
     (simp_all add: is_Checker_def is_Matcher_def checker_and_def checker_or_def checker_xor_def
        matcher_and_def matcher_or_def matcher_xor_def WrappedChecker_init_def
        WrappedMatcher_init_def)

theorem combinators_reject_other_operands_witness:
  "\<not> is_Checker number_42 \<and> \<not> is_Matcher number_42 \<and>
   checker_and leaf_a number_42 = Inl (NonCheckerOperand (Other 42)) \<and>
   checker_or leaf_a number_42 = Inl (NonCheckerOperand (Other 42)) \<and>
   checker_xor leaf_a number_42 = Inl (NonCheckerOperand (Other 42)) \<and>
   matcher_and some_matcher number_42 = Inl (NonMatcherOperand (Other 42)) \<and>
   matcher_or some_matcher number_42 = Inl (NonMatcherOperand (Other 42)) \<and>
   matcher_xor some_matcher number_42 = Inl (NonMatcherOperand (Other 42))"
proof -
  have h1: "\<not> is_Checker number_42" by (simp add: is_Checker_def number_42_def)
  have h2: "\<not> is_Matcher number_42" by (simp add: is_Matcher_def number_42_def)
  note t = combinators_reject_other_operands[of number_42 leaf_a some_matcher leaf_a some_matcher]
  have a: "checker_and leaf_a number_42 = Inl (NonCheckerOperand number_42) \<and>
      checker_or leaf_a number_42 = Inl (NonCheckerOperand number_42) \<and>
      checker_xor leaf_a number_42 = Inl (NonCheckerOperand number_42)"
    using t h1 by (elim conjE) (rule mp)
  have b: "matcher_and some_matcher number_42 = Inl (NonMatcherOperand number_42) \<and>
      matcher_or some_matcher number_42 = Inl (NonMatcherOperand number_42) \<and>
      matcher_xor some_matcher number_42 = Inl (NonMatcherOperand number_42)"
    using t h2 by (elim conjE) (rule mp)
  have n: "number_42 = Other 42" by (rule number_42_def)
  show ?thesis using h1 h2 a[unfolded n] b[unfolded n] unfolding n
    by (intro conjI; (elim conjE)?)
qed

text \<open>
  C5, as the claim states it, fails: the constructor of \<^verbatim>\<open>WrappedChecker\<close> called in
  mode \<^verbatim>\<open>NOT\<close> with a second checker returns a composite that holds both.
\<close>

theorem not_with_two_children_counterexample:
  "(WrappedChecker_init NOT leaf_a (Some leaf_b)
      :: (string, unit) BotCheckerError + (string, string) checker)
     = Inr (WrappedChecker None None NOT (BotChecker None None ''a'')
              (Some (BotChecker None None ''b'')))"
  by (simp add: WrappedChecker_init_def leaf_a_def leaf_b_def)

text \<open>
  C5, amended. The constructors of \<^verbatim>\<open>WrappedChecker\<close> and \<^verbatim>\<open>WrappedMatcher\<close> never
  raise: in every mode they store the mode and the operands they are given, a second
  operand in mode \<^verbatim>\<open>NOT\<close> included. The operator \<^verbatim>\<open>~\<close> passes one operand, so the
  composite it builds has mode \<^verbatim>\<open>NOT\<close> and exactly one child.
\<close>

theorem composite_construction:
  "WrappedChecker_init mode c c2 = Inr (WrappedChecker None None mode c c2) \<and>
   WrappedMatcher_init mode m m2 = Inr (WrappedMatcher mode m m2) \<and>
   checker_invert c = Inr (WrappedChecker None None NOT c None) \<and>
   matcher_invert m = Inr (WrappedMatcher NOT m None)"
  by (simp add: WrappedChecker_init_def WrappedMatcher_init_def checker_invert_def
      matcher_invert_def)

section \<open>Filling the callbacks of a checker\<close>




























end
